theory Spec2Isabelle
  imports Main
begin

section \<open>JavaScript values\<close>

text \<open>
  The fragment of JavaScript values that the node factory tests and converts: the
  argument \<^verbatim>\<open>type\<close> of \<^verbatim>\<open>createNode\<close> is tested for truthiness, used as a
  property key and spliced into an error message; \<^verbatim>\<open>position\<close> is tested for
  truthiness and stored. \<open>JObj\<close> stands for a plain object (an object literal with data
  properties, such as the \<^verbatim>\<open>{x, y}\<close> that \<^verbatim>\<open>project\<close> returns); its payload is
  not inspected and it has no \<^verbatim>\<open>toString\<close> of its own. Numbers other than the id
  counter do not occur in the fragment.
\<close>

datatype 'o jsval =
    JUndefined
  | JNull
  | JBool bool
  | JStr string
  | JObj 'o

text \<open>ToBoolean: what \<^verbatim>\<open>!v\<close> negates.\<close>

fun truthy :: "'o jsval \<Rightarrow> bool" where
  "truthy JUndefined = False"
| "truthy JNull = False"
| "truthy (JBool b) = b"
| "truthy (JStr s) = (s \<noteq> [])"
| "truthy (JObj _) = True"

text \<open>
  ToString, as a template literal and a property access apply it. A plain object
  inherits \<^verbatim>\<open>Object.prototype.toString\<close>.
\<close>

fun toString :: "'o jsval \<Rightarrow> string" where
  "toString JUndefined = ''undefined''"
| "toString JNull = ''null''"
| "toString (JBool b) = (if b then ''true'' else ''false'')"
| "toString (JStr s) = s"
| "toString (JObj _) = ''[object Object]''"

subsection \<open>The id counter\<close>

text \<open>
  \<^verbatim>\<open>let id = 1\<close> is a Number, an IEEE 754 double. The counter only ever holds
  integers from 1 to \<open>2 ^ 53\<close>, which are modelled as naturals. On these \<^verbatim>\<open>id++\<close>
  adds one exactly below \<open>2 ^ 53\<close>; at \<open>2 ^ 53\<close> the sum \<open>2 ^ 53 + 1\<close> is not
  a double and rounds (ties to even) back to \<open>2 ^ 53\<close>.
\<close>

definition increment :: "nat \<Rightarrow> nat" where
  "increment n = (if n < 2 ^ 53 then n + 1 else n)"

text \<open>The decimal digit of a number below ten.\<close>

definition digit :: "nat \<Rightarrow> char" where
  "digit d = ''0123456789'' ! d"

text \<open>
  Number to string for the counter's values: the decimal numeral (the exact form for
  every integer below \<open>10 ^ 21\<close>).
\<close>

function numberToString :: "nat \<Rightarrow> string" where
  "numberToString n =
     (if n < 10 then [digit n] else numberToString (n div 10) @ [digit (n mod 10)])"
  by pat_completeness auto
termination
  by (relation "measure (\<lambda>n. n)") auto

section \<open>components/Nodes/nodeFactory.js\<close>

text \<open>
  The settings components are imported from modules outside the sources; they are
  only ever bound, never called, so they are opaque references.
\<close>

datatype settings = MessageNodeSettings | SelectNodeSettings

record props =
  nodeId :: string

text \<open>\<^verbatim>\<open>settings.bind(null, { nodeId })\<close>: the target with its bound first argument.\<close>

datatype boundFunction = Bind settings props

text \<open>The payloads the two data composers build: \<^verbatim>\<open>{ message }\<close> and \<^verbatim>\<open>{ item }\<close>.\<close>

datatype 'o payload = Message string | Item "'o jsval"

record 'o node =
  draggable :: bool
  selectable :: bool
  id' :: string
  type :: string
  position :: "'o jsval"
  data :: "'o payload"
  settingsRenderer :: boundFunction

text \<open>\<^verbatim>\<open>getNodeId\<close>: the id string, and the counter after \<^verbatim>\<open>id++\<close>.\<close>

definition getNodeId :: "string \<Rightarrow> nat \<Rightarrow> string \<times> nat" where
  "getNodeId identifier i = (identifier @ ''_'' @ numberToString i, increment i)"

text \<open>
  \<^verbatim>\<open>nodeFactory\<close> returns a closure over its own counter \<^verbatim>\<open>id\<close>; the closure is
  a function of the position and the counter, returning the node and the new counter.
  The counter of a fresh closure is 1 (\<^verbatim>\<open>let id = 1\<close>): that is where the module's
  state and the sequences of calls below start.
\<close>

type_synonym 'o creator = "'o jsval \<Rightarrow> nat \<Rightarrow> 'o node \<times> nat"

definition nodeFactory :: "string \<Rightarrow> settings \<Rightarrow> (string \<Rightarrow> 'o payload) \<Rightarrow> 'o creator" where
  "nodeFactory identifier settings dataComposer = (\<lambda>position i.
     let (nodeId, i') = getNodeId identifier i in
     (\<lparr> draggable = True,
        selectable = True,
        id' = nodeId,
        type = identifier,
        position = position,
        data = dataComposer nodeId,
        settingsRenderer = Bind settings \<lparr> nodeId = nodeId \<rparr> \<rparr>, i'))"

text \<open>
  The identifiers are imported from the node components, and the data-transfer format
  from a constants module; none of the three is in the sources, so they are parameters.
\<close>

record constants =
  MESSAGE_NODE_IDENTIFIER :: string
  SELECT_NODE_IDENTIFIER :: string
  DATA_TRANSFER_TYPE :: string

definition messageNodeFactory :: "constants \<Rightarrow> 'o creator" where
  "messageNodeFactory c =
     nodeFactory (MESSAGE_NODE_IDENTIFIER c) MessageNodeSettings
       (\<lambda>nodeId. Message (''Default message for '' @ nodeId))"

definition selectNodeFactory :: "constants \<Rightarrow> 'o creator" where
  "selectNodeFactory c =
     nodeFactory (SELECT_NODE_IDENTIFIER c) SelectNodeSettings (\<lambda>_. Item JNull)"

text \<open>The module's state: the \<^verbatim>\<open>id\<close> variable of each of the two closures.\<close>

record counters =
  messageId :: nat
  selectId :: nat

definition initial :: counters where
  "initial = \<lparr> messageId = 1, selectId = 1 \<rparr>"

text \<open>
  \<^verbatim>\<open>nodeCreator\<close> is an object literal, so \<^verbatim>\<open>nodeCreator[type]\<close> finds its own
  two properties first (the later one wins where the two keys coincide) and then the
  string-keyed members it inherits from \<^verbatim>\<open>Object.prototype\<close>; every other key gives
  \<^verbatim>\<open>undefined\<close>.
\<close>

definition objectPrototype :: "string list" where
  "objectPrototype =
     [''constructor'', ''hasOwnProperty'', ''isPrototypeOf'', ''propertyIsEnumerable'',
      ''toLocaleString'', ''toString'', ''valueOf'', ''__proto__'',
      ''__defineGetter__'', ''__defineSetter__'', ''__lookupGetter__'', ''__lookupSetter__'']"

datatype property = MessageFactory | SelectFactory | Member string | Undefined

definition nodeCreator :: "constants \<Rightarrow> string \<Rightarrow> property" where
  "nodeCreator c key =
     (if key = SELECT_NODE_IDENTIFIER c then SelectFactory
      else if key = MESSAGE_NODE_IDENTIFIER c then MessageFactory
      else if key \<in> set objectPrototype then Member key
      else Undefined)"

text \<open>
  How a call completes: it returns a value, it throws, or (\<open>Inherited name\<close>) it
  returns what the built-in member \<open>name\<close> of \<^verbatim>\<open>Object.prototype\<close> returns, a
  value that is no node record (from \<^verbatim>\<open>toString\<close> the string
  \<^verbatim>\<open>[object Object]\<close>). The errors are the module's own
  \<^verbatim>\<open>throw new Error(message)\<close> and the runtime's \<^verbatim>\<open>TypeError\<close>.
\<close>

datatype error = Error string | TypeError

datatype 'a completion = Returns 'a | Throws error | Inherited string

text \<open>
  The call \<^verbatim>\<open>nodeCreator[type](position)\<close> where the lookup found an inherited member,
  for a position that is a primitive value or a plain object. \<^verbatim>\<open>__proto__\<close> is an
  accessor whose value, \<^verbatim>\<open>Object.prototype\<close>, is no function, and
  \<^verbatim>\<open>__defineGetter__\<close> and \<^verbatim>\<open>__defineSetter__\<close> reject the missing second
  argument: the three throw a \<^verbatim>\<open>TypeError\<close>. \<^verbatim>\<open>toLocaleString\<close> calls
  \<^verbatim>\<open>this.toString()\<close>, which is a factory, called without a position, where one of
  the identifiers is the string \<^verbatim>\<open>toString\<close>. Every other member returns a value
  of its own and leaves the counters alone.
\<close>

definition inherited ::
  "constants \<Rightarrow> string \<Rightarrow> counters \<Rightarrow> 'o node completion \<times> counters" where
  "inherited c name s =
     (if name \<in> {''__proto__'', ''__defineGetter__'', ''__defineSetter__''}
      then (Throws TypeError, s)
      else if name = ''toLocaleString'' then
        (case nodeCreator c ''toString'' of
           MessageFactory \<Rightarrow>
             (let (n, i) = messageNodeFactory c JUndefined (messageId s)
              in (Returns n, s\<lparr> messageId := i \<rparr>))
         | SelectFactory \<Rightarrow>
             (let (n, i) = selectNodeFactory c JUndefined (selectId s)
              in (Returns n, s\<lparr> selectId := i \<rparr>))
         | Member m \<Rightarrow> (Inherited name, s)
         | Undefined \<Rightarrow> (Inherited name, s))
      else (Inherited name, s))"

definition createNode ::
  "constants \<Rightarrow> 'o jsval \<Rightarrow> 'o jsval \<Rightarrow> counters \<Rightarrow> 'o node completion \<times> counters" where
  "createNode c = (\<lambda>type position s.
     (if \<not> truthy type then (Throws (Error ''Node type is required''), s)
      else if \<not> truthy position then (Throws (Error ''Node position is required''), s)
      else case nodeCreator c (toString type) of
        Undefined \<Rightarrow>
          (Throws (Error (''Node type: '' @ toString type @ '' is not supported'')), s)
      | Member name \<Rightarrow> inherited c name s
      | MessageFactory \<Rightarrow>
          (let (n, i) = messageNodeFactory c position (messageId s)
           in (Returns n, s\<lparr> messageId := i \<rparr>))
      | SelectFactory \<Rightarrow>
          (let (n, i) = selectNodeFactory c position (selectId s)
           in (Returns n, s\<lparr> selectId := i \<rparr>))))"

subsection \<open>Successive calls\<close>

text \<open>
  The nodes that one closure of \<^verbatim>\<open>nodeFactory\<close> produces when it is called with the
  positions of the list one after the other, its counter being \<open>i\<close> before the first
  call.
\<close>

fun calls :: "'o creator \<Rightarrow> 'o jsval list \<Rightarrow> nat \<Rightarrow> 'o node list" where
  "calls f [] i = []"
| "calls f (p # ps) i = (case f p i of (n, i') \<Rightarrow> n # calls f ps i')"

text \<open>
  A sequence of \<^verbatim>\<open>createNode(type, position)\<close> calls, each running in the state the
  one before left (a call that throws leaves the state as it was).
\<close>

fun createNodes ::
  "constants \<Rightarrow> ('o jsval \<times> 'o jsval) list \<Rightarrow> counters
     \<Rightarrow> 'o node completion list \<times> counters" where
  "createNodes c [] s = ([], s)"
| "createNodes c ((t, p) # args) s =
     (case createNode c t p s of (r, s') \<Rightarrow>
        (case createNodes c args s' of (rs, s'') \<Rightarrow> (r # rs, s'')))"

fun returned :: "'a completion list \<Rightarrow> 'a list" where
  "returned [] = []"
| "returned (Returns n # rs) = n # returned rs"
| "returned (Throws e # rs) = returned rs"
| "returned (Inherited m # rs) = returned rs"

section \<open>The drag source (NodeBlockComposer)\<close>

text \<open>
  The browser's \<^verbatim>\<open>DataTransfer\<close>: the data stored per format, and the two effect
  fields the handlers assign. \<^verbatim>\<open>getData\<close> of a format that holds nothing is the
  empty string.
\<close>

record dataTransfer =
  items :: "string \<rightharpoonup> string"
  effectAllowed :: string
  dropEffect :: string

definition setData :: "string \<Rightarrow> string \<Rightarrow> dataTransfer \<Rightarrow> dataTransfer" where
  "setData format d dt = dt\<lparr> items := (items dt)(format \<mapsto> d) \<rparr>"

definition getData :: "string \<Rightarrow> dataTransfer \<Rightarrow> string" where
  "getData format dt = (case items dt format of None \<Rightarrow> [] | Some d \<Rightarrow> d)"

text \<open>A drag event; the coordinates are numbers of a type \<open>'n\<close> left open.\<close>

record 'n dragEvent =
  dataTransfer :: dataTransfer
  clientX :: 'n
  clientY :: 'n
  defaultPrevented :: bool

definition dragHandler :: "constants \<Rightarrow> string \<Rightarrow> 'n dragEvent \<Rightarrow> 'n dragEvent" where
  "dragHandler c identifier event =
     event\<lparr> dataTransfer :=
       (setData (DATA_TRANSFER_TYPE c) identifier (dataTransfer event))
         \<lparr> effectAllowed := ''move'' \<rparr> \<rparr>"

section \<open>The state store\<close>

text \<open>
  Modelled from the spec: the module \<^verbatim>\<open>hooks/useStore\<close> (the node store and the
  edge store with their actions \<^verbatim>\<open>addNode\<close>, \<^verbatim>\<open>setNodes\<close>, \<^verbatim>\<open>setEdges\<close> and
  \<^verbatim>\<open>setSelectedNode\<close>) is missing from the sources. The spec describes "a client-side
  state store that also holds edges and the currently selected node"; \<open>None\<close> is
  the \<^verbatim>\<open>null\<close> selection.
\<close>

record ('o, 'e) store =
  nodes :: "'o node list"
  edges :: "'e list"
  selectedNode :: "'o node option"

text \<open>
  Modelled from the spec: \<^verbatim>\<open>addNode\<close> of the missing \<^verbatim>\<open>hooks/useStore\<close>; a new node
  is one that the handler will "append ... to a client-side state store".
\<close>

definition addNode :: "'o node \<Rightarrow> ('o, 'e) store \<Rightarrow> ('o, 'e) store" where
  "addNode n st = st\<lparr> nodes := nodes st @ [n] \<rparr>"

text \<open>
  Modelled from the spec: \<^verbatim>\<open>setNodes\<close>, \<^verbatim>\<open>setEdges\<close> and \<^verbatim>\<open>setSelectedNode\<close> of
  the missing \<^verbatim>\<open>hooks/useStore\<close>, each replacing the one component of the store that
  it names.
\<close>

definition setNodes :: "'o node list \<Rightarrow> ('o, 'e) store \<Rightarrow> ('o, 'e) store" where
  "setNodes ns st = st\<lparr> nodes := ns \<rparr>"

definition setEdges :: "'e list \<Rightarrow> ('o, 'e) store \<Rightarrow> ('o, 'e) store" where
  "setEdges es st = st\<lparr> edges := es \<rparr>"

definition setSelectedNode :: "'o node option \<Rightarrow> ('o, 'e) store \<Rightarrow> ('o, 'e) store" where
  "setSelectedNode n st = st\<lparr> selectedNode := n \<rparr>"

section \<open>The canvas (Flow)\<close>

text \<open>
  What the component reads from the graph library: the wrapper's bounding rectangle
  (\<^verbatim>\<open>left\<close> and \<^verbatim>\<open>top\<close>) and the instance's \<^verbatim>\<open>project\<close>, which maps a point
  \<^verbatim>\<open>{x, y}\<close> (a pair here) to a point.
\<close>

record 'n flow =
  rectLeft :: 'n
  rectTop :: 'n
  project :: "'n \<times> 'n \<Rightarrow> 'n \<times> 'n"

text \<open>
  The library's \<^verbatim>\<open>applyNodeChanges\<close> and \<^verbatim>\<open>addEdge\<close> are arguments of the
  handlers that call them.
\<close>

definition onNodesChange ::
  "('c \<Rightarrow> 'o node list \<Rightarrow> 'o node list) \<Rightarrow> 'c \<Rightarrow> ('o, 'e) store \<Rightarrow> ('o, 'e) store" where
  "onNodesChange applyNodeChanges changes st = setNodes (applyNodeChanges changes (nodes st)) st"

definition onNodesDelete :: "('o, 'e) store \<Rightarrow> ('o, 'e) store" where
  "onNodesDelete st = setSelectedNode None st"

definition onEdgesChange ::
  "('c \<Rightarrow> 'e list \<Rightarrow> 'e list) \<Rightarrow> 'c \<Rightarrow> ('o, 'e) store \<Rightarrow> ('o, 'e) store" where
  "onEdgesChange applyNodeChanges changes st = setEdges (applyNodeChanges changes (edges st)) st"

definition onDragOver :: "'n dragEvent \<Rightarrow> 'n dragEvent" where
  "onDragOver event =
     event\<lparr> defaultPrevented := True,
            dataTransfer := (dataTransfer event)\<lparr> dropEffect := ''move'' \<rparr> \<rparr>"

text \<open>
  \<^verbatim>\<open>onDrop\<close>, on the module state and the store. \<^verbatim>\<open>getData\<close> returns a string,
  so \<^verbatim>\<open>typeof type === 'undefined'\<close> is false and the validity check is \<^verbatim>\<open>!type\<close>.
  An error thrown by \<^verbatim>\<open>createNode\<close> leaves the handler before \<^verbatim>\<open>addNode\<close>. Where
  \<^verbatim>\<open>createNode\<close> hands back the value of an inherited member, which is no node, the
  handler is followed no further: the store beside an \<open>Inherited\<close> completion is
  the store before \<^verbatim>\<open>addNode\<close>.
  (The earlier copy of the component reads the bounding rectangle after the check
  and names the format constant differently; it is the same function of the state.)
\<close>

definition onDrop ::
  "constants \<Rightarrow> ('n::minus) flow \<Rightarrow> 'n dragEvent \<Rightarrow> counters \<times> ('n \<times> 'n, 'e) store
     \<Rightarrow> unit completion \<times> counters \<times> ('n \<times> 'n, 'e) store" where
  "onDrop c flow event = (\<lambda>(s, st).
     let type = JStr (getData (DATA_TRANSFER_TYPE c) (dataTransfer event)) in
     if \<not> truthy type then (Returns (), s, st)
     else
       let position = JObj (project flow (clientX event - rectLeft flow,
                                          clientY event - rectTop flow))
       in case createNode c type position s of
            (Returns newNode, s') \<Rightarrow> (Returns (), s', addNode newNode st)
          | (Throws e, s') \<Rightarrow> (Throws e, s', st)
          | (Inherited m, s') \<Rightarrow> (Inherited m, s', st))"

definition onSelectionChange :: "'o node list \<Rightarrow> ('o, 'e) store \<Rightarrow> ('o, 'e) store" where
  "onSelectionChange ns st =
     (if length ns \<noteq> 0 then setSelectedNode (Some (ns ! 0)) st else st)"

definition onConnect ::
  "('p \<Rightarrow> 'e list \<Rightarrow> 'e list) \<Rightarrow> 'p \<Rightarrow> ('o, 'e) store \<Rightarrow> ('o, 'e) store" where
  "onConnect addEdge params st = setEdges (addEdge params (edges st)) st"

section \<open>Sample values\<close>

text \<open>Concrete values at which the theorems below are instantiated.\<close>

abbreviation sampleConstants :: constants where
  "sampleConstants \<equiv>
     \<lparr> MESSAGE_NODE_IDENTIFIER = ''message'', SELECT_NODE_IDENTIFIER = ''select'',
       DATA_TRANSFER_TYPE = ''application/reactflow'' \<rparr>"

abbreviation messageNode1 :: "'o jsval \<Rightarrow> 'o node" where
  "messageNode1 p \<equiv>
     \<lparr> draggable = True, selectable = True, id' = ''message_1'', type = ''message'',
       position = p, data = Message ''Default message for message_1'',
       settingsRenderer = Bind MessageNodeSettings \<lparr> nodeId = ''message_1'' \<rparr> \<rparr>"

abbreviation selectNode1 :: "'o jsval \<Rightarrow> 'o node" where
  "selectNode1 p \<equiv>
     \<lparr> draggable = True, selectable = True, id' = ''select_1'', type = ''select'',
       position = p, data = Item JNull,
       settingsRenderer = Bind SelectNodeSettings \<lparr> nodeId = ''select_1'' \<rparr> \<rparr>"

abbreviation sampleFlow :: "int flow" where
  "sampleFlow \<equiv> \<lparr> rectLeft = 10, rectTop = 20, project = (\<lambda>point. point) \<rparr>"

abbreviation sampleDrag :: "int dragEvent" where
  "sampleDrag \<equiv>
     \<lparr> dataTransfer = \<lparr> items = Map.empty, effectAllowed = ''uninitialized'',
                        dropEffect = ''none'' \<rparr>,
       clientX = 110, clientY = 220, defaultPrevented = False \<rparr>"

abbreviation sampleStore :: "(int \<times> int, unit) store" where
  "sampleStore \<equiv>
     \<lparr> nodes = [selectNode1 (JObj (0, 0))], edges = [()],
       selectedNode = Some (selectNode1 (JObj (0, 0))) \<rparr>"

section \<open>Facts about the id strings\<close>

declare numberToString.simps [simp del]

lemma digit_inj: "a < 10 \<Longrightarrow> b < 10 \<Longrightarrow> digit a = digit b \<Longrightarrow> a = b"
proof -
  assume a: "a < 10" and b: "b < 10" and e: "digit a = digit b"
  have d: "distinct ''0123456789''" by simp
  have "length ''0123456789'' = 10" by simp
  with a b e d show ?thesis unfolding digit_def
    by (metis nth_eq_iff_index_eq)
qed

lemma digit_in_digits: "d < 10 \<Longrightarrow> digit d \<in> set ''0123456789''"
proof -
  assume "d < 10"
  then have "d < length ''0123456789''" by simp
  then show ?thesis unfolding digit_def by (rule nth_mem)
qed

lemma digit_not_underscore: "d < 10 \<Longrightarrow> digit d \<noteq> CHR ''_''"
  using digit_in_digits [of d] by auto

lemma underscore_not_digit: "d < 10 \<Longrightarrow> CHR ''_'' \<noteq> digit d"
  using digit_not_underscore [of d] by auto

lemma numberToString_nonempty: "numberToString n \<noteq> []"
  by (subst numberToString.simps) simp

lemma numberToString_no_underscore: "CHR ''_'' \<notin> set (numberToString n)"
proof (induction n rule: numberToString.induct)
  case (1 n)
  show ?case
  proof (cases "n < 10")
    case True
    then show ?thesis
      by (subst numberToString.simps) (simp add: underscore_not_digit)
  next
    case False
    have "n mod 10 < 10" by simp
    then have "digit (n mod 10) \<noteq> CHR ''_''" by (rule digit_not_underscore)
    with False "1.IH" show ?thesis
      by (subst numberToString.simps) auto
  qed
qed

lemma numberToString_inj: "numberToString m = numberToString n \<Longrightarrow> m = n"
proof (induction m arbitrary: n rule: numberToString.induct)
  case (1 m)
  note eq = "1.prems"
  show ?case
  proof (cases "m < 10")
    case small_m: True
    show ?thesis
    proof (cases "n < 10")
      case True
      with small_m eq have "digit m = digit n"
        by (simp add: numberToString.simps [of m] numberToString.simps [of n])
      with small_m True show ?thesis by (rule digit_inj)
    next
      case False
      with small_m eq have "[digit m] = numberToString (n div 10) @ [digit (n mod 10)]"
        by (simp add: numberToString.simps [of m] numberToString.simps [of n])
      then have "numberToString (n div 10) = []" by simp
      then show ?thesis by (simp add: numberToString_nonempty)
    qed
  next
    case big_m: False
    show ?thesis
    proof (cases "n < 10")
      case True
      with big_m eq have "numberToString (m div 10) @ [digit (m mod 10)] = [digit n]"
        by (simp add: numberToString.simps [of m] numberToString.simps [of n])
      then have "numberToString (m div 10) = []" by simp
      then show ?thesis by (simp add: numberToString_nonempty)
    next
      case False
      with big_m eq have
        "numberToString (m div 10) @ [digit (m mod 10)]
           = numberToString (n div 10) @ [digit (n mod 10)]"
        by (simp add: numberToString.simps [of m] numberToString.simps [of n])
      then have q: "numberToString (m div 10) = numberToString (n div 10)"
        and r: "digit (m mod 10) = digit (n mod 10)"
        by simp_all
      from big_m q have "m div 10 = n div 10" by (rule "1.IH")
      moreover from r have "m mod 10 = n mod 10" by (auto intro: digit_inj)
      ultimately show ?thesis by (metis div_mult_mod_eq)
    qed
  qed
qed

lemma split_at_first:
  assumes "x \<notin> set us" and "x \<notin> set vs" and "us @ x # ys = vs @ x # zs"
  shows "us = vs \<and> ys = zs"
proof -
  have "takeWhile (\<lambda>y. y \<noteq> x) (us @ x # ys) = us"
    using assms(1) by (auto simp: takeWhile_tail)
  moreover have "takeWhile (\<lambda>y. y \<noteq> x) (vs @ x # zs) = vs"
    using assms(2) by (auto simp: takeWhile_tail)
  ultimately have "us = vs" using assms(3) by simp
  with assms(3) show ?thesis by simp
qed

lemma nodeId_inj:
  assumes "I @ ''_'' @ numberToString a = J @ ''_'' @ numberToString b"
  shows "I = J \<and> a = b"
proof -
  from assms have "rev (I @ ''_'' @ numberToString a) = rev (J @ ''_'' @ numberToString b)"
    by simp
  then have "rev (numberToString a) @ CHR ''_'' # rev I
               = rev (numberToString b) @ CHR ''_'' # rev J"
    by simp
  moreover have "CHR ''_'' \<notin> set (rev (numberToString a))"
    and "CHR ''_'' \<notin> set (rev (numberToString b))"
    by (simp_all add: numberToString_no_underscore)
  ultimately have "rev (numberToString a) = rev (numberToString b) \<and> rev I = rev J"
    by (rule split_at_first [rotated 2])
  then show ?thesis by (auto dest: numberToString_inj)
qed

section \<open>Facts about the counter\<close>

lemma increment_ge: "n \<le> increment n"
  by (simp add: increment_def)

lemma increment_fixed: "increment i \<le> i \<Longrightarrow> 2 ^ 53 \<le> i"
  by (simp add: increment_def split: if_splits)

lemma increment_le_Suc: "increment i \<le> i + 1"
  by (simp add: increment_def)

lemma funpow_increment: "i \<le> 2 ^ 53 \<Longrightarrow> (increment ^^ n) i = min (i + n) (2 ^ 53)"
  by (induction n) (auto simp: increment_def min_def)

section \<open>Facts about createNode\<close>

lemma nodeFactory_fields:
  "draggable (fst (nodeFactory I S D p i))"
  "selectable (fst (nodeFactory I S D p i))"
  "id' (fst (nodeFactory I S D p i)) = I @ ''_'' @ numberToString i"
  "type (fst (nodeFactory I S D p i)) = I"
  "position (fst (nodeFactory I S D p i)) = p"
  "data (fst (nodeFactory I S D p i)) = D (I @ ''_'' @ numberToString i)"
  "settingsRenderer (fst (nodeFactory I S D p i))
     = Bind S \<lparr> nodeId = I @ ''_'' @ numberToString i \<rparr>"
  "snd (nodeFactory I S D p i) = increment i"
  by (simp_all add: nodeFactory_def getNodeId_def)

lemma createNode_supported:
  assumes "truthy t" and "truthy p"
    and "toString t = MESSAGE_NODE_IDENTIFIER c \<or> toString t = SELECT_NODE_IDENTIFIER c"
  shows "createNode c t p s =
     (if toString t = SELECT_NODE_IDENTIFIER c
      then (Returns (fst (selectNodeFactory c p (selectId s))),
            s\<lparr> selectId := increment (selectId s) \<rparr>)
      else (Returns (fst (messageNodeFactory c p (messageId s))),
            s\<lparr> messageId := increment (messageId s) \<rparr>))"
  using assms
  by (auto simp: createNode_def nodeCreator_def selectNodeFactory_def messageNodeFactory_def
      nodeFactory_def getNodeId_def split: prod.splits)

lemma nodeCreator_SelectFactory:
  "nodeCreator c k = SelectFactory \<longleftrightarrow> k = SELECT_NODE_IDENTIFIER c"
  by (simp add: nodeCreator_def)

lemma nodeCreator_MessageFactory:
  "nodeCreator c k = MessageFactory
     \<longleftrightarrow> k \<noteq> SELECT_NODE_IDENTIFIER c \<and> k = MESSAGE_NODE_IDENTIFIER c"
  by (simp add: nodeCreator_def)

lemma messageNodeFactory_snd: "snd (messageNodeFactory c q i) = increment i"
  by (simp add: messageNodeFactory_def nodeFactory_fields)

lemma selectNodeFactory_snd: "snd (selectNodeFactory c q i) = increment i"
  by (simp add: selectNodeFactory_def nodeFactory_fields)

text \<open>
  The three ways a call of an inherited member, and a call of \<^verbatim>\<open>createNode\<close>, ends:
  without a node and with the counters as they were, or with the next node of one of
  the two factories.
\<close>

lemma inherited_outcome:
  assumes "inherited c name s = (r, s')"
  obtains
    (other) "s' = s" and "\<And>n. r \<noteq> Returns n"
  | (select) q where "r = Returns (fst (selectNodeFactory c q (selectId s)))"
      and "s' = s\<lparr> selectId := increment (selectId s) \<rparr>"
  | (message) q where "MESSAGE_NODE_IDENTIFIER c \<noteq> SELECT_NODE_IDENTIFIER c"
      and "r = Returns (fst (messageNodeFactory c q (messageId s)))"
      and "s' = s\<lparr> messageId := increment (messageId s) \<rparr>"
proof (cases "name = ''toLocaleString''")
  case False
  with assms have "s' = s" and "\<And>n. r \<noteq> Returns n"
    by (auto simp: inherited_def split: if_splits)
  then show ?thesis by (rule other)
next
  case True
  show ?thesis
  proof (cases "nodeCreator c ''toString''")
    case MessageFactory
    then have k: "MESSAGE_NODE_IDENTIFIER c \<noteq> SELECT_NODE_IDENTIFIER c"
      by (auto simp: nodeCreator_MessageFactory)
    from assms True MessageFactory
    have "r = Returns (fst (messageNodeFactory c JUndefined (messageId s)))"
      and "s' = s\<lparr> messageId := increment (messageId s) \<rparr>"
      by (auto simp: inherited_def case_prod_beta messageNodeFactory_snd)
    with k show ?thesis by (intro message [of JUndefined])
  next
    case SelectFactory
    with assms True
    have "r = Returns (fst (selectNodeFactory c JUndefined (selectId s)))"
      and "s' = s\<lparr> selectId := increment (selectId s) \<rparr>"
      by (auto simp: inherited_def case_prod_beta selectNodeFactory_snd)
    then show ?thesis by (intro select [of JUndefined])
  next
    case (Member m)
    with assms True have "s' = s" and "\<And>n. r \<noteq> Returns n"
      by (auto simp: inherited_def)
    then show ?thesis by (rule other)
  next
    case Undefined
    with assms True have "s' = s" and "\<And>n. r \<noteq> Returns n"
      by (auto simp: inherited_def)
    then show ?thesis by (rule other)
  qed
qed

lemma createNode_outcome:
  assumes "createNode c t p s = (r, s')"
  obtains
    (other) "s' = s" and "\<And>n. r \<noteq> Returns n"
  | (select) q where "r = Returns (fst (selectNodeFactory c q (selectId s)))"
      and "s' = s\<lparr> selectId := increment (selectId s) \<rparr>"
  | (message) q where "MESSAGE_NODE_IDENTIFIER c \<noteq> SELECT_NODE_IDENTIFIER c"
      and "r = Returns (fst (messageNodeFactory c q (messageId s)))"
      and "s' = s\<lparr> messageId := increment (messageId s) \<rparr>"
proof (cases "truthy t \<and> truthy p")
  case False
  with assms have "s' = s" and "\<And>n. r \<noteq> Returns n"
    by (auto simp: createNode_def split: if_splits)
  then show ?thesis by (rule other)
next
  case True
  show ?thesis
  proof (cases "nodeCreator c (toString t)")
    case MessageFactory
    then have k: "MESSAGE_NODE_IDENTIFIER c \<noteq> SELECT_NODE_IDENTIFIER c"
      by (auto simp: nodeCreator_MessageFactory)
    from assms True MessageFactory
    have "r = Returns (fst (messageNodeFactory c p (messageId s)))"
      and "s' = s\<lparr> messageId := increment (messageId s) \<rparr>"
      by (auto simp: createNode_def case_prod_beta messageNodeFactory_snd)
    with k show ?thesis by (intro message [of p])
  next
    case SelectFactory
    with assms True
    have "r = Returns (fst (selectNodeFactory c p (selectId s)))"
      and "s' = s\<lparr> selectId := increment (selectId s) \<rparr>"
      by (auto simp: createNode_def case_prod_beta selectNodeFactory_snd)
    then show ?thesis by (intro select [of p])
  next
    case (Member m)
    with assms True have "inherited c m s = (r, s')"
      by (simp add: createNode_def)
    then show ?thesis
    proof (cases rule: inherited_outcome)
      case other
      then show ?thesis by (rule that(1))
    next
      case (select q)
      then show ?thesis by (rule that(2))
    next
      case (message q)
      then show ?thesis by (rule that(3))
    qed
  next
    case Undefined
    with assms True have "s' = s" and "\<And>n. r \<noteq> Returns n"
      by (auto simp: createNode_def)
    then show ?thesis by (rule other)
  qed
qed

text \<open>The same with the type and the id of the node spelled out.\<close>

lemma createNode_cases:
  assumes "createNode c t p s = (r, s')"
  obtains
    (other) "s' = s" and "\<And>n. r \<noteq> Returns n"
  | (select) n where "r = Returns n" and "type n = SELECT_NODE_IDENTIFIER c"
      and "id' n = SELECT_NODE_IDENTIFIER c @ ''_'' @ numberToString (selectId s)"
      and "s' = s\<lparr> selectId := increment (selectId s) \<rparr>"
  | (message) n where "r = Returns n" and "type n = MESSAGE_NODE_IDENTIFIER c"
      and "MESSAGE_NODE_IDENTIFIER c \<noteq> SELECT_NODE_IDENTIFIER c"
      and "id' n = MESSAGE_NODE_IDENTIFIER c @ ''_'' @ numberToString (messageId s)"
      and "s' = s\<lparr> messageId := increment (messageId s) \<rparr>"
  using assms
proof (cases rule: createNode_outcome)
  case other
  then show ?thesis by (rule that(1))
next
  case (select q)
  then show ?thesis
    by (intro that(2) [of "fst (selectNodeFactory c q (selectId s))"])
       (simp_all add: selectNodeFactory_def nodeFactory_fields)
next
  case (message q)
  then show ?thesis
    by (intro that(3) [of "fst (messageNodeFactory c q (messageId s))"])
       (simp_all add: messageNodeFactory_def nodeFactory_fields)
qed

lemma createNode_counters_mono:
  assumes "createNode c t p s = (r, s')"
  shows "selectId s \<le> selectId s' \<and> messageId s \<le> messageId s'"
  using assms by (cases rule: createNode_cases) (simp_all add: increment_ge)

text \<open>A returned node comes from one of the two factories.\<close>

lemma createNode_Returns:
  assumes "fst (createNode c t p s) = Returns n"
  shows "(\<exists>q. n = fst (selectNodeFactory c q (selectId s)))
       \<or> (MESSAGE_NODE_IDENTIFIER c \<noteq> SELECT_NODE_IDENTIFIER c
            \<and> (\<exists>q. n = fst (messageNodeFactory c q (messageId s))))"
proof -
  obtain r s' where step: "createNode c t p s = (r, s')" by (cases "createNode c t p s")
  with assms have r: "r = Returns n" by simp
  from step show ?thesis
  proof (cases rule: createNode_outcome)
    case other
    with r show ?thesis by simp
  next
    case (select q)
    with r show ?thesis by auto
  next
    case (message q)
    with r show ?thesis by auto
  qed
qed

text \<open>
  Exactly when one of the three errors of \<^verbatim>\<open>createNode\<close> is thrown, and exactly
  when it hands back the value of an inherited member.
\<close>

lemma createNode_Error_iff:
  "(\<exists>m. fst (createNode c t p s) = Throws (Error m)) \<longleftrightarrow>
     \<not> truthy t \<or> \<not> truthy p \<or> nodeCreator c (toString t) = Undefined"
  by (auto simp: createNode_def inherited_def split: property.splits prod.splits)

lemma createNode_Inherited:
  assumes "truthy p" and "name \<in> set objectPrototype"
    and "name \<noteq> MESSAGE_NODE_IDENTIFIER c" and "name \<noteq> SELECT_NODE_IDENTIFIER c"
    and "name \<notin> {''__proto__'', ''__defineGetter__'', ''__defineSetter__'', ''toLocaleString''}"
  shows "createNode c (JStr name) p s = (Inherited name, s)"
proof -
  from assms(2) have "name \<noteq> []" by (auto simp: objectPrototype_def)
  with assms show ?thesis
    by (simp add: createNode_def nodeCreator_def inherited_def)
qed

lemma createNode_TypeError:
  assumes "truthy p"
    and "name \<in> {''__proto__'', ''__defineGetter__'', ''__defineSetter__''}"
    and "name \<noteq> MESSAGE_NODE_IDENTIFIER c" and "name \<noteq> SELECT_NODE_IDENTIFIER c"
  shows "createNode c (JStr name) p s = (Throws TypeError, s)"
proof -
  from assms(2) have "name \<noteq> []" and "name \<in> set objectPrototype"
    by (auto simp: objectPrototype_def)
  with assms show ?thesis
    by (simp add: createNode_def nodeCreator_def inherited_def)
qed

lemma numberToString_1: "numberToString (Suc 0) = ''1''"
  by (simp add: numberToString.simps digit_def)

lemma numberToString_2: "numberToString (Suc (Suc 0)) = ''2''"
  by (simp add: numberToString.simps digit_def)

lemma numberToString_max: "numberToString 9007199254740992 = ''9007199254740992''"
  by (simp add: numberToString.simps digit_def)

lemma createNode_message_1:
  "createNode sampleConstants (JStr ''message'') (JObj p) initial
     = (Returns (messageNode1 (JObj p)), \<lparr> messageId = 2, selectId = 1 \<rparr>)"
  by (simp add: createNode_def nodeCreator_def messageNodeFactory_def nodeFactory_def
      getNodeId_def initial_def increment_def numberToString_1)

lemma createNode_select_1:
  "createNode sampleConstants (JStr ''select'') (JObj p) initial
     = (Returns (selectNode1 (JObj p)), \<lparr> messageId = 1, selectId = 2 \<rparr>)"
  by (simp add: createNode_def nodeCreator_def selectNodeFactory_def nodeFactory_def
      getNodeId_def initial_def increment_def numberToString_1)

section \<open>Facts about successive calls\<close>

lemma length_calls: "length (calls f ps i) = length ps"
  by (induction ps arbitrary: i) (auto split: prod.splits)

lemma calls_Cons: "calls f (p # ps) i = fst (f p i) # calls f ps (snd (f p i))"
  by (simp split: prod.splits)

lemma calls_nodeFactory_nth:
  "k < length ps \<Longrightarrow>
     calls (nodeFactory I S D) ps i ! k
       = fst (nodeFactory I S D (ps ! k) ((increment ^^ k) i))"
proof (induction ps arbitrary: i k)
  case Nil
  then show ?case by simp
next
  case (Cons p ps)
  show ?case
  proof (cases k)
    case 0
    then show ?thesis by (simp only: calls_Cons) simp
  next
    case (Suc j)
    with Cons.prems have "j < length ps" by simp
    then have "calls (nodeFactory I S D) ps (increment i) ! j
                 = fst (nodeFactory I S D (ps ! j) ((increment ^^ j) (increment i)))"
      by (rule Cons.IH)
    moreover have "snd (nodeFactory I S D p i) = increment i"
      by (simp add: nodeFactory_fields)
    ultimately show ?thesis
      using Suc by (simp only: calls_Cons) (simp add: funpow_swap1)
  qed
qed

lemma createNodes_Cons:
  "createNodes c ((t, p) # args) s =
     (fst (createNode c t p s) # fst (createNodes c args (snd (createNode c t p s))),
      snd (createNodes c args (snd (createNode c t p s))))"
  by (simp split: prod.splits)

lemma createNodes_append:
  "createNodes c (as @ bs) s =
     (fst (createNodes c as s) @ fst (createNodes c bs (snd (createNodes c as s))),
      snd (createNodes c bs (snd (createNodes c as s))))"
proof (induction as arbitrary: s)
  case Nil
  then show ?case by simp
next
  case (Cons a as)
  obtain t p where a: "a = (t, p)" by (cases a)
  show ?case unfolding a append_Cons createNodes_Cons Cons.IH by simp
qed

lemma returned_Cons_iff:
  "n \<in> set (returned (r # rs)) \<longleftrightarrow> r = Returns n \<or> n \<in> set (returned rs)"
  by (cases r) auto

lemma returned_other: "(\<And>n. r \<noteq> Returns n) \<Longrightarrow> returned (r # rs) = returned rs"
  by (cases r) auto

lemma returned_append: "returned (xs @ ys) = returned xs @ returned ys"
proof (induction xs)
  case Nil
  then show ?case by simp
next
  case (Cons r xs)
  then show ?case by (cases r) simp_all
qed

lemma filter_member_pos: "n \<in> set xs \<Longrightarrow> P n \<Longrightarrow> 1 \<le> length (filter P xs)"
proof -
  assume "n \<in> set xs" and "P n"
  then have "n \<in> set (filter P xs)" by simp
  then have "0 < length (filter P xs)" by (rule length_pos_if_in_set)
  then show ?thesis by linarith
qed

lemma length_filter_mono:
  "(\<And>x. x \<in> set xs \<Longrightarrow> P x \<Longrightarrow> Q x) \<Longrightarrow> length (filter P xs) \<le> length (filter Q xs)"
  by (induction xs) auto

text \<open>
  Every id that a sequence of calls hands out carries a counter value at or above the
  one the sequence started from.
\<close>

lemma createNodes_id_form:
  assumes "n \<in> set (returned (fst (createNodes c args s)))"
  shows "(type n = SELECT_NODE_IDENTIFIER c
            \<and> (\<exists>k\<ge>selectId s. id' n = SELECT_NODE_IDENTIFIER c @ ''_'' @ numberToString k))
       \<or> (type n = MESSAGE_NODE_IDENTIFIER c
            \<and> MESSAGE_NODE_IDENTIFIER c \<noteq> SELECT_NODE_IDENTIFIER c
            \<and> (\<exists>k\<ge>messageId s. id' n = MESSAGE_NODE_IDENTIFIER c @ ''_'' @ numberToString k))"
  using assms
proof (induction args arbitrary: s)
  case Nil
  then show ?case by simp
next
  case (Cons a args)
  obtain t p where a: "a = (t, p)" by (cases a)
  obtain r s' where step: "createNode c t p s = (r, s')" by (cases "createNode c t p s")
  let ?rs = "fst (createNodes c args s')"
  from a step have "fst (createNodes c (a # args) s) = r # ?rs"
    by (simp only: createNodes_Cons) simp
  with Cons.prems have "r = Returns n \<or> n \<in> set (returned ?rs)"
    by (simp only: returned_Cons_iff)
  then show ?case
  proof
    assume ret: "r = Returns n"
    from step show ?thesis
    proof (cases rule: createNode_cases)
      case other
      with ret show ?thesis by simp
    next
      case (select m)
      with ret have "type n = SELECT_NODE_IDENTIFIER c"
        and "id' n = SELECT_NODE_IDENTIFIER c @ ''_'' @ numberToString (selectId s)"
        by simp_all
      then show ?thesis by blast
    next
      case (message m)
      with ret have "type n = MESSAGE_NODE_IDENTIFIER c"
        and "MESSAGE_NODE_IDENTIFIER c \<noteq> SELECT_NODE_IDENTIFIER c"
        and "id' n = MESSAGE_NODE_IDENTIFIER c @ ''_'' @ numberToString (messageId s)"
        by simp_all
      then show ?thesis by blast
    qed
  next
    assume "n \<in> set (returned ?rs)"
    then have later:
      "(type n = SELECT_NODE_IDENTIFIER c
          \<and> (\<exists>k\<ge>selectId s'. id' n = SELECT_NODE_IDENTIFIER c @ ''_'' @ numberToString k))
       \<or> (type n = MESSAGE_NODE_IDENTIFIER c
          \<and> MESSAGE_NODE_IDENTIFIER c \<noteq> SELECT_NODE_IDENTIFIER c
          \<and> (\<exists>k\<ge>messageId s'. id' n = MESSAGE_NODE_IDENTIFIER c @ ''_'' @ numberToString k))"
      by (rule Cons.IH)
    from step have mono: "selectId s \<le> selectId s'" "messageId s \<le> messageId s'"
      by (simp_all add: createNode_counters_mono)
    from later show ?thesis
    proof
      assume "type n = SELECT_NODE_IDENTIFIER c
          \<and> (\<exists>k\<ge>selectId s'. id' n = SELECT_NODE_IDENTIFIER c @ ''_'' @ numberToString k)"
      then obtain k where "type n = SELECT_NODE_IDENTIFIER c" and "selectId s' \<le> k"
        and "id' n = SELECT_NODE_IDENTIFIER c @ ''_'' @ numberToString k"
        by blast
      moreover from this mono have "selectId s \<le> k" by simp
      ultimately show ?thesis by blast
    next
      assume "type n = MESSAGE_NODE_IDENTIFIER c
          \<and> MESSAGE_NODE_IDENTIFIER c \<noteq> SELECT_NODE_IDENTIFIER c
          \<and> (\<exists>k\<ge>messageId s'. id' n = MESSAGE_NODE_IDENTIFIER c @ ''_'' @ numberToString k)"
      then obtain k where "type n = MESSAGE_NODE_IDENTIFIER c"
        and "MESSAGE_NODE_IDENTIFIER c \<noteq> SELECT_NODE_IDENTIFIER c"
        and "messageId s' \<le> k"
        and "id' n = MESSAGE_NODE_IDENTIFIER c @ ''_'' @ numberToString k"
        by blast
      moreover from this mono have "messageId s \<le> k" by simp
      ultimately show ?thesis by blast
    qed
  qed
qed

text \<open>
  The ids of a sequence are distinct as long as neither counter is asked for more ids
  than there are integers from its value up to \<open>2 ^ 53\<close>.
\<close>

lemma createNodes_distinct_from:
  assumes "rs = fst (createNodes c args s)"
    and "selectId s + length (filter (\<lambda>n. type n = SELECT_NODE_IDENTIFIER c) (returned rs))
           \<le> 2 ^ 53 + 1"
    and "messageId s + length (filter (\<lambda>n. type n \<noteq> SELECT_NODE_IDENTIFIER c) (returned rs))
           \<le> 2 ^ 53 + 1"
  shows "distinct (map id' (returned rs))"
  using assms
proof (induction args arbitrary: s rs)
  case Nil
  then show ?case by simp
next
  case (Cons a args)
  let ?S = "SELECT_NODE_IDENTIFIER c" and ?M = "MESSAGE_NODE_IDENTIFIER c"
  obtain t p where a: "a = (t, p)" by (cases a)
  obtain r s' where step: "createNode c t p s = (r, s')" by (cases "createNode c t p s")
  define rs' where "rs' = fst (createNodes c args s')"
  from a step Cons.prems(1) have rs: "rs = r # rs'"
    unfolding rs'_def by (simp only: createNodes_Cons) simp
  from step show ?case
  proof (cases rule: createNode_cases)
    case other
    then have same: "returned rs = returned rs'"
      using rs by (simp add: returned_other)
    have "distinct (map id' (returned rs'))"
      using rs'_def Cons.prems(2,3) other(1) same by (intro Cons.IH [of rs' s']) simp_all
    with same show ?thesis by simp
  next
    case (select m)
    with rs have ret: "returned rs = m # returned rs'" by simp
    have cntS: "length (filter (\<lambda>n. type n = ?S) (returned rs))
                  = Suc (length (filter (\<lambda>n. type n = ?S) (returned rs')))"
      and cntM: "length (filter (\<lambda>n. type n \<noteq> ?S) (returned rs))
                  = length (filter (\<lambda>n. type n \<noteq> ?S) (returned rs'))"
      using ret select(2) by simp_all
    have s': "selectId s' = increment (selectId s)" "messageId s' = messageId s"
      using select(4) by simp_all
    have tail: "distinct (map id' (returned rs'))"
    proof (rule Cons.IH [of rs' s'])
      show "rs' = fst (createNodes c args s')" by (rule rs'_def)
      show "selectId s' + length (filter (\<lambda>n. type n = ?S) (returned rs')) \<le> 2 ^ 53 + 1"
        using Cons.prems(2) cntS s'(1) increment_le_Suc [of "selectId s"] by simp
      show "messageId s' + length (filter (\<lambda>n. type n \<noteq> ?S) (returned rs')) \<le> 2 ^ 53 + 1"
        using Cons.prems(3) cntM s'(2) by simp
    qed
    have fresh: "id' m \<notin> set (map id' (returned rs'))"
    proof
      assume "id' m \<in> set (map id' (returned rs'))"
      then obtain n where n: "n \<in> set (returned rs')" and eq: "id' n = id' m" by auto
      from n have "(type n = ?S \<and> (\<exists>k\<ge>selectId s'. id' n = ?S @ ''_'' @ numberToString k))
         \<or> (type n = ?M \<and> ?M \<noteq> ?S
              \<and> (\<exists>k\<ge>messageId s'. id' n = ?M @ ''_'' @ numberToString k))"
        unfolding rs'_def by (rule createNodes_id_form)
      then show False
      proof
        assume "type n = ?S \<and> (\<exists>k\<ge>selectId s'. id' n = ?S @ ''_'' @ numberToString k)"
        then obtain k where ty: "type n = ?S" and k: "selectId s' \<le> k"
          and idn: "id' n = ?S @ ''_'' @ numberToString k" by blast
        from idn eq select(3)
        have "?S @ ''_'' @ numberToString k = ?S @ ''_'' @ numberToString (selectId s)"
          by simp
        then have "k = selectId s" by (rule nodeId_inj [THEN conjunct2])
        with k s'(1) have "increment (selectId s) \<le> selectId s" by simp
        then have "2 ^ 53 \<le> selectId s" by (rule increment_fixed)
        moreover from n ty have "1 \<le> length (filter (\<lambda>n. type n = ?S) (returned rs'))"
          by (rule filter_member_pos)
        ultimately show False using Cons.prems(2) cntS by simp
      next
        assume "type n = ?M \<and> ?M \<noteq> ?S
              \<and> (\<exists>k\<ge>messageId s'. id' n = ?M @ ''_'' @ numberToString k)"
        then obtain k where ne: "?M \<noteq> ?S" and idn: "id' n = ?M @ ''_'' @ numberToString k"
          by blast
        from idn eq select(3)
        have "?M @ ''_'' @ numberToString k = ?S @ ''_'' @ numberToString (selectId s)"
          by simp
        then have "?M = ?S" by (rule nodeId_inj [THEN conjunct1])
        with ne show False by simp
      qed
    qed
    from fresh tail ret show ?thesis by simp
  next
    case (message m)
    with rs have ret: "returned rs = m # returned rs'" by simp
    have cntS: "length (filter (\<lambda>n. type n = ?S) (returned rs))
                  = length (filter (\<lambda>n. type n = ?S) (returned rs'))"
      and cntM: "length (filter (\<lambda>n. type n \<noteq> ?S) (returned rs))
                  = Suc (length (filter (\<lambda>n. type n \<noteq> ?S) (returned rs')))"
      using ret message(2,3) by simp_all
    have s': "messageId s' = increment (messageId s)" "selectId s' = selectId s"
      using message(5) by simp_all
    have tail: "distinct (map id' (returned rs'))"
    proof (rule Cons.IH [of rs' s'])
      show "rs' = fst (createNodes c args s')" by (rule rs'_def)
      show "selectId s' + length (filter (\<lambda>n. type n = ?S) (returned rs')) \<le> 2 ^ 53 + 1"
        using Cons.prems(2) cntS s'(2) by simp
      show "messageId s' + length (filter (\<lambda>n. type n \<noteq> ?S) (returned rs')) \<le> 2 ^ 53 + 1"
        using Cons.prems(3) cntM s'(1) increment_le_Suc [of "messageId s"] by simp
    qed
    have fresh: "id' m \<notin> set (map id' (returned rs'))"
    proof
      assume "id' m \<in> set (map id' (returned rs'))"
      then obtain n where n: "n \<in> set (returned rs')" and eq: "id' n = id' m" by auto
      from n have "(type n = ?S \<and> (\<exists>k\<ge>selectId s'. id' n = ?S @ ''_'' @ numberToString k))
         \<or> (type n = ?M \<and> ?M \<noteq> ?S
              \<and> (\<exists>k\<ge>messageId s'. id' n = ?M @ ''_'' @ numberToString k))"
        unfolding rs'_def by (rule createNodes_id_form)
      then show False
      proof
        assume "type n = ?S \<and> (\<exists>k\<ge>selectId s'. id' n = ?S @ ''_'' @ numberToString k)"
        then obtain k where idn: "id' n = ?S @ ''_'' @ numberToString k" by blast
        from idn eq message(4)
        have "?M @ ''_'' @ numberToString (messageId s) = ?S @ ''_'' @ numberToString k"
          by simp
        then have "?M = ?S" by (rule nodeId_inj [THEN conjunct1])
        with message(3) show False by simp
      next
        assume "type n = ?M \<and> ?M \<noteq> ?S
              \<and> (\<exists>k\<ge>messageId s'. id' n = ?M @ ''_'' @ numberToString k)"
        then obtain k where ty: "type n \<noteq> ?S" and k: "messageId s' \<le> k"
          and idn: "id' n = ?M @ ''_'' @ numberToString k" by auto
        from idn eq message(4)
        have "?M @ ''_'' @ numberToString k = ?M @ ''_'' @ numberToString (messageId s)"
          by simp
        then have "k = messageId s" by (rule nodeId_inj [THEN conjunct2])
        with k s'(1) have "increment (messageId s) \<le> messageId s" by simp
        then have "2 ^ 53 \<le> messageId s" by (rule increment_fixed)
        moreover from n ty have "1 \<le> length (filter (\<lambda>n. type n \<noteq> ?S) (returned rs'))"
          by (rule filter_member_pos)
        ultimately show False using Cons.prems(3) cntM by simp
      qed
    qed
    from fresh tail ret show ?thesis by simp
  qed
qed

text \<open>At \<open>2 ^ 53\<close> the counter stays where it is, and the id repeats.\<close>

lemma createNodes_replicate_message:
  assumes "truthy p" and "m \<noteq> []" and "m = MESSAGE_NODE_IDENTIFIER c"
    and "m \<noteq> SELECT_NODE_IDENTIFIER c"
  shows "snd (createNodes c (replicate n (JStr m, p)) s)
           = s\<lparr> messageId := (increment ^^ n) (messageId s) \<rparr>"
proof (induction n arbitrary: s)
  case 0
  then show ?case by simp
next
  case (Suc n)
  from assms have "createNode c (JStr m) p s
      = (Returns (fst (messageNodeFactory c p (messageId s))),
         s\<lparr> messageId := increment (messageId s) \<rparr>)"
    by (simp add: createNode_supported)
  then show ?case
    unfolding replicate_Suc createNodes_Cons by (simp add: Suc.IH funpow_swap1)
qed

lemma createNodes_twice_at_limit:
  assumes "truthy p" and "m \<noteq> []" and "m = MESSAGE_NODE_IDENTIFIER c"
    and "m \<noteq> SELECT_NODE_IDENTIFIER c" and "messageId s = 2 ^ 53"
  shows "map id' (returned (fst (createNodes c [(JStr m, p), (JStr m, p)] s)))
           = [m @ ''_'' @ numberToString (2 ^ 53), m @ ''_'' @ numberToString (2 ^ 53)]"
proof -
  have step: "createNode c (JStr m) p s'
      = (Returns (fst (messageNodeFactory c p (messageId s'))),
         s'\<lparr> messageId := increment (messageId s') \<rparr>)" for s'
    using assms(1-4) by (simp add: createNode_supported)
  have "increment (2 ^ 53) = 2 ^ 53" by (simp add: increment_def)
  with assms(3,5) show ?thesis
    unfolding createNodes_Cons step
    by (simp add: messageNodeFactory_def nodeFactory_fields)
qed

lemma createNodes_saturated:
  assumes "truthy p" and "m \<noteq> []" and "m = MESSAGE_NODE_IDENTIFIER c"
    and "m \<noteq> SELECT_NODE_IDENTIFIER c"
  shows "\<not> distinct (map id' (returned (fst
            (createNodes c (replicate (2 ^ 53 + 1) (JStr m, p)) initial))))"
proof -
  let ?x = "(JStr m, p)"
  let ?s = "snd (createNodes c (replicate (2 ^ 53 - 1) ?x) initial)"
  have "(2::nat) ^ 53 + 1 = (2 ^ 53 - 1) + 2" by simp
  then have "replicate (2 ^ 53 + 1) ?x = replicate (2 ^ 53 - 1) ?x @ replicate 2 ?x"
    by (simp only: replicate_add)
  also have "replicate 2 ?x = [?x, ?x]" by (simp add: numeral_2_eq_2)
  finally have split: "replicate (2 ^ 53 + 1) ?x = replicate (2 ^ 53 - 1) ?x @ [?x, ?x]" .
  have "?s = initial\<lparr> messageId := (increment ^^ (2 ^ 53 - 1)) (messageId initial) \<rparr>"
    using assms by (rule createNodes_replicate_message)
  moreover have "(increment ^^ (2 ^ 53 - 1)) (messageId initial)
                   = min (messageId initial + (2 ^ 53 - 1)) (2 ^ 53)"
    by (rule funpow_increment) (simp add: initial_def)
  ultimately have "messageId ?s = 2 ^ 53" by (simp add: initial_def)
  with assms have "map id' (returned (fst (createNodes c [?x, ?x] ?s)))
      = [m @ ''_'' @ numberToString (2 ^ 53), m @ ''_'' @ numberToString (2 ^ 53)]"
    by (rule createNodes_twice_at_limit)
  then have "\<not> distinct (map id' (returned (fst (createNodes c [?x, ?x] ?s))))"
    by simp
  then show ?thesis
    unfolding split createNodes_append by (simp add: returned_append)
qed

lemma createNodes_sample:
  "createNodes sampleConstants
     [(JStr ''message'', JObj ()), (JStr ''select'', JObj ()), (JStr ''message'', JNull),
      (JStr ''toString'', JObj ()), (JStr ''message'', JObj ())] initial
   = ([Returns (messageNode1 (JObj ())), Returns (selectNode1 (JObj ())),
       Throws (Error ''Node position is required''), Inherited ''toString'',
       Returns ((messageNode1 (JObj ()))
         \<lparr> id' := ''message_2'', data := Message ''Default message for message_2'',
           settingsRenderer := Bind MessageNodeSettings \<lparr> nodeId = ''message_2'' \<rparr> \<rparr>)],
      \<lparr> messageId = 3, selectId = 2 \<rparr>)"
  by (simp add: createNode_def nodeCreator_def objectPrototype_def inherited_def
      messageNodeFactory_def selectNodeFactory_def nodeFactory_def getNodeId_def initial_def
      increment_def numberToString_1 numberToString_2)

section \<open>The node records that createNode returns\<close>

text \<open>
  C1, as the code has it: for each of the two supported identifiers (a non-empty
  string) and every truthy position, \<^verbatim>\<open>createNode(type, position)\<close> returns the
  record that the factory registered for the type produces for the position; its
  \<^verbatim>\<open>type\<close> is the identifier and its \<^verbatim>\<open>position\<close> is the argument. For a falsy
  position the guard of \<^verbatim>\<open>createNode\<close> throws instead.
\<close>

theorem createNode_returns_node:
  assumes "t = MESSAGE_NODE_IDENTIFIER c \<or> t = SELECT_NODE_IDENTIFIER c"
    and "t \<noteq> []" and "truthy p"
  shows "fst (createNode c (JStr t) p s) =
           Returns (fst (if t = SELECT_NODE_IDENTIFIER c
                         then selectNodeFactory c p (selectId s)
                         else messageNodeFactory c p (messageId s)))
       \<and> type (fst (if t = SELECT_NODE_IDENTIFIER c
                     then selectNodeFactory c p (selectId s)
                     else messageNodeFactory c p (messageId s))) = t
       \<and> position (fst (if t = SELECT_NODE_IDENTIFIER c
                     then selectNodeFactory c p (selectId s)
                     else messageNodeFactory c p (messageId s))) = p"
  using assms
  by (auto simp: createNode_supported selectNodeFactory_def messageNodeFactory_def
      nodeFactory_fields)

text \<open>The theorem at the select identifier and the position object \<open>JObj ()\<close>.\<close>

theorem createNode_returns_node_witness:
  "fst (createNode sampleConstants (JStr ''select'') (JObj ()) initial) =
     Returns (fst (selectNodeFactory sampleConstants (JObj ()) (selectId initial)))
   \<and> type (fst (selectNodeFactory sampleConstants (JObj ()) (selectId initial))) = ''select''
   \<and> position (fst (selectNodeFactory sampleConstants (JObj ()) (selectId initial)))
       = JObj ()
   \<and> fst (selectNodeFactory sampleConstants (JObj ()) (selectId initial))
       = selectNode1 (JObj ())"
proof -
  have "fst (selectNodeFactory sampleConstants (JObj ()) (selectId initial))
          = selectNode1 (JObj ())"
    by (simp add: selectNodeFactory_def nodeFactory_def getNodeId_def initial_def
        numberToString_1)
  with createNode_returns_node [of "''select''" sampleConstants "JObj ()" initial]
  show ?thesis by simp
qed

text \<open>
  With the position \<^verbatim>\<open>null\<close> the call for the message identifier returns no record:
  it throws.
\<close>

theorem createNode_falsy_position:
  "fst (createNode sampleConstants (JStr ''message'') (JNull :: unit jsval) initial)
     = Throws (Error ''Node position is required'')"
  by (simp add: createNode_def)

text \<open>
  C3: every node record that \<^verbatim>\<open>createNode\<close> returns, whatever the arguments, has
  \<^verbatim>\<open>draggable\<close> and \<^verbatim>\<open>selectable\<close> set to true.
\<close>

theorem createNode_default_flags:
  "fst (createNode c t p s) = Returns n \<Longrightarrow> draggable n \<and> selectable n"
  by (auto dest!: createNode_Returns
      simp: selectNodeFactory_def messageNodeFactory_def nodeFactory_fields)

theorem createNode_default_flags_witness:
  "fst (createNode sampleConstants (JStr ''message'') (JObj ()) initial)
     = Returns (messageNode1 (JObj ()))
   \<and> draggable (messageNode1 (JObj ())) \<and> selectable (messageNode1 (JObj ()))"
proof -
  have h: "fst (createNode sampleConstants (JStr ''message'') (JObj ()) initial)
             = Returns (messageNode1 (JObj ()))"
    by (simp add: createNode_message_1)
  from createNode_default_flags [OF h] h show ?thesis by simp
qed

text \<open>
  C4: the payload of a returned node follows from its type. A message node (the two
  identifiers being different strings) has \<^verbatim>\<open>data\<close> equal to
  \<^verbatim>\<open>{ message: "Default message for " + id }\<close> for its own id, a select node has
  \<^verbatim>\<open>{ item: null }\<close>, and there is no third kind.
\<close>

theorem createNode_default_data:
  assumes "fst (createNode c t p s) = Returns n"
  shows "(type n = MESSAGE_NODE_IDENTIFIER c
            \<and> MESSAGE_NODE_IDENTIFIER c \<noteq> SELECT_NODE_IDENTIFIER c
          \<longrightarrow> data n = Message (''Default message for '' @ id' n))
       \<and> (type n = SELECT_NODE_IDENTIFIER c \<longrightarrow> data n = Item JNull)
       \<and> (type n = MESSAGE_NODE_IDENTIFIER c \<or> type n = SELECT_NODE_IDENTIFIER c)"
  using createNode_Returns [OF assms]
  by (auto simp: selectNodeFactory_def messageNodeFactory_def nodeFactory_fields)

theorem createNode_default_data_witness:
  "fst (createNode sampleConstants (JStr ''message'') (JObj ()) initial)
     = Returns (messageNode1 (JObj ()))
   \<and> data (messageNode1 (JObj ())) = Message (''Default message for '' @ ''message_1'')
   \<and> fst (createNode sampleConstants (JStr ''select'') (JObj ()) initial)
     = Returns (selectNode1 (JObj ()))
   \<and> data (selectNode1 (JObj ())) = Item (JNull :: unit jsval)"
proof -
  have m: "fst (createNode sampleConstants (JStr ''message'') (JObj ()) initial)
             = Returns (messageNode1 (JObj ()))"
    by (simp add: createNode_message_1)
  have s: "fst (createNode sampleConstants (JStr ''select'') (JObj ()) initial)
             = Returns (selectNode1 (JObj ()))"
    by (simp add: createNode_select_1)
  from createNode_default_data [OF m] createNode_default_data [OF s] m s
  show ?thesis by simp
qed

text \<open>
  C5: the \<^verbatim>\<open>settingsRenderer\<close> of a returned node is the settings component of its
  type, bound to the argument \<^verbatim>\<open>{ nodeId }\<close> whose \<^verbatim>\<open>nodeId\<close> is the id of the
  same record.
\<close>

theorem createNode_settingsRenderer:
  assumes "fst (createNode c t p s) = Returns n"
  shows "settingsRenderer n =
     Bind (if type n = SELECT_NODE_IDENTIFIER c then SelectNodeSettings
           else MessageNodeSettings) \<lparr> nodeId = id' n \<rparr>"
  using createNode_Returns [OF assms]
  by (auto simp: selectNodeFactory_def messageNodeFactory_def nodeFactory_fields)

theorem createNode_settingsRenderer_witness:
  "fst (createNode sampleConstants (JStr ''select'') (JObj ()) initial)
     = Returns (selectNode1 (JObj ()))
   \<and> settingsRenderer (selectNode1 (JObj ()))
       = Bind SelectNodeSettings \<lparr> nodeId = id' (selectNode1 (JObj ())) \<rparr>"
proof -
  have h: "fst (createNode sampleConstants (JStr ''select'') (JObj ()) initial)
             = Returns (selectNode1 (JObj ()))"
    by (simp add: createNode_select_1)
  from createNode_settingsRenderer [OF h] h show ?thesis by simp
qed

section \<open>The ids\<close>

text \<open>
  C2, as the code has it: for a factory made by \<^verbatim>\<open>nodeFactory\<close> with identifier
  \<open>I\<close>, the \<open>k\<close>-th node it produces (counting its calls from 1, the counter
  of a fresh closure being 1) has the id \<open>I\<close>, an underscore and the decimal numeral
  of \<open>k\<close>, for every \<open>k\<close> up to \<open>2 ^ 53\<close>; below \<open>2 ^ 53\<close> each call
  adds exactly one to the counter.
\<close>

theorem nodeFactory_sequential_ids:
  assumes "1 \<le> k" and "k \<le> length ps" and "k \<le> 2 ^ 53"
  shows "id' (calls (nodeFactory I S D) ps 1 ! (k - 1)) = I @ ''_'' @ numberToString k
       \<and> (i < 2 ^ 53 \<longrightarrow> snd (nodeFactory I S D p i) = i + 1)"
proof
  from assms have "k - 1 < length ps" by simp
  then have "id' (calls (nodeFactory I S D) ps 1 ! (k - 1))
               = I @ ''_'' @ numberToString ((increment ^^ (k - 1)) 1)"
    by (simp add: calls_nodeFactory_nth nodeFactory_fields)
  moreover have "(increment ^^ (k - 1)) 1 = min (1 + (k - 1)) (2 ^ 53)"
    by (rule funpow_increment) simp
  moreover from assms have "min (1 + (k - 1)) (2 ^ 53) = k" by simp
  ultimately show "id' (calls (nodeFactory I S D) ps 1 ! (k - 1))
                     = I @ ''_'' @ numberToString k"
    by simp
next
  show "i < 2 ^ 53 \<longrightarrow> snd (nodeFactory I S D p i) = i + 1"
    by (simp add: nodeFactory_fields increment_def)
qed

text \<open>The second of three nodes of a factory for the identifier \<^verbatim>\<open>message\<close>.\<close>

theorem nodeFactory_sequential_ids_witness:
  "(1::nat) \<le> 2 \<and> 2 \<le> length [JObj (), JNull, JObj ()] \<and> (2::nat) \<le> 2 ^ 53
   \<and> id' (calls (nodeFactory ''message'' MessageNodeSettings (\<lambda>nodeId. Item JNull))
            [JObj (), JNull, JObj ()] 1 ! (2 - 1)) = ''message_2''
   \<and> snd (nodeFactory ''message'' MessageNodeSettings (\<lambda>nodeId. Item JNull) (JObj ()) 1)
       = 1 + 1"
proof -
  have a: "(1::nat) \<le> 2" and b: "2 \<le> length [JObj (), JNull, JObj ()]"
    and c: "(2::nat) \<le> 2 ^ 53"
    by simp_all
  have d: "numberToString 2 = ''2''"
    by (simp add: numberToString.simps [of 2] digit_def)
  from nodeFactory_sequential_ids [OF a b c, of "''message''" MessageNodeSettings
      "\<lambda>nodeId. Item JNull" 1 "JObj ()"] a b c d
  show ?thesis by simp
qed

text \<open>
  The node number \<open>2 ^ 53 + 1\<close> of a factory does not get the numeral of its number:
  its id repeats the id of the node before it.
\<close>

theorem nodeFactory_saturated_id:
  "id' (calls (nodeFactory ''message'' MessageNodeSettings
               (\<lambda>nodeId. Message (''Default message for '' @ nodeId)))
          (replicate 9007199254740993 (JObj ())) 1 ! (9007199254740993 - 1))
     = ''message_9007199254740992''"
proof -
  have "(9007199254740993::nat) - 1 < length (replicate 9007199254740993 (JObj ()))"
    by simp
  then have "id' (calls (nodeFactory ''message'' MessageNodeSettings
               (\<lambda>nodeId. Message (''Default message for '' @ nodeId)))
          (replicate 9007199254740993 (JObj ())) 1 ! (9007199254740993 - 1))
     = ''message'' @ ''_'' @ numberToString ((increment ^^ (9007199254740993 - 1)) 1)"
    by (simp only: calls_nodeFactory_nth nodeFactory_fields)
  moreover have "(increment ^^ (9007199254740993 - 1)) 1
                   = min (1 + (9007199254740993 - 1)) (2 ^ 53)"
    by (rule funpow_increment) simp
  moreover have "min (1 + (9007199254740993 - 1)) ((2::nat) ^ 53) = 9007199254740992" by simp
  ultimately show ?thesis by (simp only: numberToString_max) simp
qed

text \<open>
  C9, as the code has it: in a sequence of \<^verbatim>\<open>createNode\<close> calls, in any order of
  the two types and with failing calls in between, that returns at most \<open>2 ^ 53\<close>
  nodes of each type, the ids of the returned records are pairwise distinct; and a
  call that returns a node of one type adds to the counter of that type and leaves
  the counter of the other type as it was.
\<close>

theorem createNodes_ids_distinct:
  assumes "length (filter (\<lambda>n. type n = MESSAGE_NODE_IDENTIFIER c)
             (returned (fst (createNodes c args initial)))) \<le> 2 ^ 53"
    and "length (filter (\<lambda>n. type n = SELECT_NODE_IDENTIFIER c)
             (returned (fst (createNodes c args initial)))) \<le> 2 ^ 53"
  shows "distinct (map id' (returned (fst (createNodes c args initial))))
       \<and> (createNode c t p s = (Returns n, s') \<longrightarrow>
            (type n = SELECT_NODE_IDENTIFIER c \<longrightarrow>
               messageId s' = messageId s \<and> selectId s' = increment (selectId s))
          \<and> (type n \<noteq> SELECT_NODE_IDENTIFIER c \<longrightarrow>
               selectId s' = selectId s \<and> messageId s' = increment (messageId s)))"
proof
  let ?rs = "fst (createNodes c args initial)"
  have "length (filter (\<lambda>n. type n \<noteq> SELECT_NODE_IDENTIFIER c) (returned ?rs))
          \<le> length (filter (\<lambda>n. type n = MESSAGE_NODE_IDENTIFIER c) (returned ?rs))"
  proof (rule length_filter_mono)
    fix n assume "n \<in> set (returned ?rs)" and "type n \<noteq> SELECT_NODE_IDENTIFIER c"
    with createNodes_id_form [of n c args initial]
    show "type n = MESSAGE_NODE_IDENTIFIER c" by blast
  qed
  with assms(1)
  have "messageId initial
          + length (filter (\<lambda>n. type n \<noteq> SELECT_NODE_IDENTIFIER c) (returned ?rs))
        \<le> 2 ^ 53 + 1"
    by (simp add: initial_def)
  moreover from assms(2)
  have "selectId initial
          + length (filter (\<lambda>n. type n = SELECT_NODE_IDENTIFIER c) (returned ?rs))
        \<le> 2 ^ 53 + 1"
    by (simp add: initial_def)
  ultimately show "distinct (map id' (returned ?rs))"
    by (intro createNodes_distinct_from [of ?rs c args initial]) simp_all
next
  show "createNode c t p s = (Returns n, s') \<longrightarrow>
            (type n = SELECT_NODE_IDENTIFIER c \<longrightarrow>
               messageId s' = messageId s \<and> selectId s' = increment (selectId s))
          \<and> (type n \<noteq> SELECT_NODE_IDENTIFIER c \<longrightarrow>
               selectId s' = selectId s \<and> messageId s' = increment (messageId s))"
  proof
    assume "createNode c t p s = (Returns n, s')"
    then show "(type n = SELECT_NODE_IDENTIFIER c \<longrightarrow>
               messageId s' = messageId s \<and> selectId s' = increment (selectId s))
          \<and> (type n \<noteq> SELECT_NODE_IDENTIFIER c \<longrightarrow>
               selectId s' = selectId s \<and> messageId s' = increment (messageId s))"
      by (cases rule: createNode_cases) auto
  qed
qed

text \<open>Five calls, two of which return no node; and a select call on the fresh state.\<close>

theorem createNodes_ids_distinct_witness:
  "map id' (returned (fst (createNodes sampleConstants
     [(JStr ''message'', JObj ()), (JStr ''select'', JObj ()), (JStr ''message'', JNull),
      (JStr ''toString'', JObj ()), (JStr ''message'', JObj ())] initial)))
     = [''message_1'', ''select_1'', ''message_2'']
   \<and> distinct (map id' (returned (fst (createNodes sampleConstants
     [(JStr ''message'', JObj ()), (JStr ''select'', JObj ()), (JStr ''message'', JNull),
      (JStr ''toString'', JObj ()), (JStr ''message'', JObj ())] initial))))
   \<and> createNode sampleConstants (JStr ''select'') (JObj ()) initial
       = (Returns (selectNode1 (JObj ())), \<lparr> messageId = 1, selectId = 2 \<rparr>)
   \<and> messageId \<lparr> messageId = 1, selectId = 2 \<rparr> = messageId initial"
proof -
  let ?args = "[(JStr ''message'', JObj ()), (JStr ''select'', JObj ()),
      (JStr ''message'', JNull), (JStr ''toString'', JObj ()), (JStr ''message'', JObj ())]"
  have ids: "map id' (returned (fst (createNodes sampleConstants ?args initial)))
               = [''message_1'', ''select_1'', ''message_2'']"
    by (simp only: createNodes_sample) simp
  have m: "length (filter (\<lambda>n. type n = MESSAGE_NODE_IDENTIFIER sampleConstants)
             (returned (fst (createNodes sampleConstants ?args initial)))) \<le> 2 ^ 53"
    by (simp only: createNodes_sample) simp
  have s: "length (filter (\<lambda>n. type n = SELECT_NODE_IDENTIFIER sampleConstants)
             (returned (fst (createNodes sampleConstants ?args initial)))) \<le> 2 ^ 53"
    by (simp only: createNodes_sample) simp
  have sel: "createNode sampleConstants (JStr ''select'') (JObj ()) initial
       = (Returns (selectNode1 (JObj ())), \<lparr> messageId = 1, selectId = 2 \<rparr>)"
    by (simp add: createNode_def nodeCreator_def selectNodeFactory_def nodeFactory_def
      getNodeId_def initial_def increment_def numberToString_1)
  from createNodes_ids_distinct [OF m s, of "JStr ''select''" "JObj ()" initial
      "selectNode1 (JObj ())" "\<lparr> messageId = 1, selectId = 2 \<rparr>"] ids sel
  show ?thesis by simp
qed

text \<open>
  A sequence of \<open>2 ^ 53 + 1\<close> successful calls for the message identifier returns
  the same id twice.
\<close>

theorem createNodes_repeated_id:
  "\<not> distinct (map id' (returned (fst
      (createNodes sampleConstants
         (replicate 9007199254740993 (JStr ''message'', JObj ())) initial))))"
proof -
  have limit: "(9007199254740993::nat) = 2 ^ 53 + 1" by simp
  show ?thesis unfolding limit by (rule createNodes_saturated) simp_all
qed

section \<open>The errors of createNode\<close>

text \<open>
  C8 at the type \<^verbatim>\<open>'toString'\<close>, which is truthy and not a key of the registry: the
  lookup \<^verbatim>\<open>nodeCreator[type]\<close> finds the member inherited from
  \<^verbatim>\<open>Object.prototype\<close>, so the guard does not throw, the call goes to that member
  and its value is returned.
\<close>

theorem createNode_inherited_member:
  "createNode sampleConstants (JStr ''toString'') (JObj ()) initial
     = (Inherited ''toString'', initial)"
  by (simp add: createNode_def nodeCreator_def objectPrototype_def inherited_def)

section \<open>Drag and drop\<close>

lemma getData_setData: "getData format (setData format d dt) = d"
  by (simp add: getData_def setData_def)

lemma getData_dragHandler:
  "getData (DATA_TRANSFER_TYPE c) (dataTransfer (dragHandler c t e)) = t"
  by (simp add: dragHandler_def getData_def setData_def)

lemma getData_items:
  "items dt = items dt' \<Longrightarrow> getData format dt = getData format dt'"
  by (simp add: getData_def)

text \<open>A drop of a supported identifier ends in \<^verbatim>\<open>addNode\<close> of the created node.\<close>

lemma onDrop_supported:
  assumes "getData (DATA_TRANSFER_TYPE c) (dataTransfer event) = t"
    and "t = MESSAGE_NODE_IDENTIFIER c \<or> t = SELECT_NODE_IDENTIFIER c"
    and "t \<noteq> []"
    and "createNode c (JStr t)
           (JObj (project flow (clientX event - rectLeft flow, clientY event - rectTop flow))) s
         = (r, s')"
  shows "\<exists>n. r = Returns n \<and> type n = t
           \<and> onDrop c flow event (s, st) = (Returns (), s', addNode n st)"
proof -
  let ?p = "JObj (project flow (clientX event - rectLeft flow, clientY event - rectTop flow))"
  from assms(2,3) have "createNode c (JStr t) ?p s =
     (if t = SELECT_NODE_IDENTIFIER c
      then (Returns (fst (selectNodeFactory c ?p (selectId s))),
            s\<lparr> selectId := increment (selectId s) \<rparr>)
      else (Returns (fst (messageNodeFactory c ?p (messageId s))),
            s\<lparr> messageId := increment (messageId s) \<rparr>))"
    using createNode_supported [of "JStr t" ?p c s] by simp
  with assms(4) obtain n where r: "r = Returns n" and ty: "type n = t"
    using assms(2)
    by (auto simp: selectNodeFactory_def messageNodeFactory_def nodeFactory_fields
        split: if_splits)
  from assms(1,3,4) r have "onDrop c flow event (s, st) = (Returns (), s', addNode n st)"
    by (simp add: onDrop_def)
  with r ty show ?thesis by blast
qed

lemma onDrop_selectedNode:
  "selectedNode (snd (snd (onDrop c flow event (s, st)))) = selectedNode st"
proof -
  let ?p = "JObj (project flow (clientX event - rectLeft flow, clientY event - rectTop flow))"
  let ?t = "JStr (getData (DATA_TRANSFER_TYPE c) (dataTransfer event))"
  obtain r s' where step: "createNode c ?t ?p s = (r, s')"
    by (cases "createNode c ?t ?p s")
  then show ?thesis
    by (cases r) (simp_all add: onDrop_def addNode_def Let_def)
qed

text \<open>
  C6: when the data transfer of the drop event holds, under the transfer format, one
  of the two supported identifiers (a non-empty string), \<^verbatim>\<open>onDrop\<close> completes
  normally and the store it leaves is the store it found with exactly one node added
  at the end of the node list, the node being the record that \<^verbatim>\<open>createNode\<close>
  returns for that identifier at the projected drop position; the nodes that were
  there, the edges and the selected node are as before.
\<close>

theorem onDrop_appends_node:
  assumes "getData (DATA_TRANSFER_TYPE c) (dataTransfer event) = t"
    and "t = MESSAGE_NODE_IDENTIFIER c \<or> t = SELECT_NODE_IDENTIFIER c"
    and "t \<noteq> []"
  shows "\<exists>n s'.
      createNode c (JStr t)
        (JObj (project flow (clientX event - rectLeft flow, clientY event - rectTop flow))) s
        = (Returns n, s')
    \<and> onDrop c flow event (s, st) = (Returns (), s', st\<lparr> nodes := nodes st @ [n] \<rparr>)
    \<and> edges (st\<lparr> nodes := nodes st @ [n] \<rparr>) = edges st
    \<and> selectedNode (st\<lparr> nodes := nodes st @ [n] \<rparr>) = selectedNode st"
proof -
  obtain r s' where step: "createNode c (JStr t)
        (JObj (project flow (clientX event - rectLeft flow, clientY event - rectTop flow))) s
        = (r, s')"
    by (cases "createNode c (JStr t)
        (JObj (project flow (clientX event - rectLeft flow, clientY event - rectTop flow))) s")
  from onDrop_supported [OF assms step, of st] obtain n where "r = Returns n"
    and "onDrop c flow event (s, st) = (Returns (), s', addNode n st)" by blast
  with step show ?thesis by (auto simp: addNode_def)
qed

text \<open>
  A drop of the message block on a store that holds one select node, which is also
  the selected one, with the resulting state written out.
\<close>

theorem onDrop_appends_node_witness:
  "getData (DATA_TRANSFER_TYPE sampleConstants)
     (dataTransfer (dragHandler sampleConstants ''message'' sampleDrag)) = ''message''
   \<and> (''message'' = MESSAGE_NODE_IDENTIFIER sampleConstants
        \<or> ''message'' = SELECT_NODE_IDENTIFIER sampleConstants)
   \<and> ''message'' \<noteq> []
   \<and> (\<exists>n s'.
      createNode sampleConstants (JStr ''message'')
        (JObj (project sampleFlow
           (clientX (dragHandler sampleConstants ''message'' sampleDrag) - rectLeft sampleFlow,
            clientY (dragHandler sampleConstants ''message'' sampleDrag) - rectTop sampleFlow)))
        \<lparr> messageId = 1, selectId = 2 \<rparr>
        = (Returns n, s')
    \<and> onDrop sampleConstants sampleFlow (dragHandler sampleConstants ''message'' sampleDrag)
        (\<lparr> messageId = 1, selectId = 2 \<rparr>, sampleStore)
        = (Returns (), s', sampleStore\<lparr> nodes := nodes sampleStore @ [n] \<rparr>)
    \<and> edges (sampleStore\<lparr> nodes := nodes sampleStore @ [n] \<rparr>) = edges sampleStore
    \<and> selectedNode (sampleStore\<lparr> nodes := nodes sampleStore @ [n] \<rparr>)
        = selectedNode sampleStore)
   \<and> onDrop sampleConstants sampleFlow (dragHandler sampleConstants ''message'' sampleDrag)
        (\<lparr> messageId = 1, selectId = 2 \<rparr>, sampleStore)
       = (Returns (), \<lparr> messageId = 2, selectId = 2 \<rparr>,
          \<lparr> nodes = [selectNode1 (JObj (0, 0)), messageNode1 (JObj (100, 200))],
            edges = [()], selectedNode = Some (selectNode1 (JObj (0, 0))) \<rparr>)"
proof -
  have a: "getData (DATA_TRANSFER_TYPE sampleConstants)
     (dataTransfer (dragHandler sampleConstants ''message'' sampleDrag)) = ''message''"
    by (simp add: dragHandler_def getData_def setData_def)
  have b: "''message'' = MESSAGE_NODE_IDENTIFIER sampleConstants
        \<or> ''message'' = SELECT_NODE_IDENTIFIER sampleConstants"
    by simp
  have c: "''message'' \<noteq> []" by simp
  have d: "onDrop sampleConstants sampleFlow (dragHandler sampleConstants ''message'' sampleDrag)
        (\<lparr> messageId = 1, selectId = 2 \<rparr>, sampleStore)
       = (Returns (), \<lparr> messageId = 2, selectId = 2 \<rparr>,
          \<lparr> nodes = [selectNode1 (JObj (0, 0)), messageNode1 (JObj (100, 200))],
            edges = [()], selectedNode = Some (selectNode1 (JObj (0, 0))) \<rparr>)"
    by (simp add: onDrop_def dragHandler_def getData_def setData_def
        createNode_def nodeCreator_def messageNodeFactory_def nodeFactory_def getNodeId_def
        increment_def numberToString_1 addNode_def)
  from onDrop_appends_node [OF a b c, of sampleFlow "\<lparr> messageId = 1, selectId = 2 \<rparr>" sampleStore]
    a b c d
  show ?thesis by (intro conjI) assumption+
qed

text \<open>
  C7: \<^verbatim>\<open>dragHandler\<close> of a palette item with identifier \<open>t\<close> stores \<open>t\<close>
  itself under the transfer format; a drop event that carries the same data reads
  \<open>t\<close> back; and when \<open>t\<close> is the identifier of one of the two node types (a
  non-empty string), as it is for the blocks of the palette, \<^verbatim>\<open>onDrop\<close> passes
  it to \<^verbatim>\<open>createNode\<close> and adds the node that comes back, whose \<^verbatim>\<open>type\<close> is
  \<open>t\<close>.
\<close>

theorem drag_drop_round_trip:
  "items (dataTransfer (dragHandler c t e)) (DATA_TRANSFER_TYPE c) = Some t
   \<and> (items (dataTransfer event) = items (dataTransfer (dragHandler c t e))
        \<longrightarrow> getData (DATA_TRANSFER_TYPE c) (dataTransfer event) = t
          \<and> (t \<noteq> [] \<longrightarrow>
                fst (onDrop c flow event (s, st))
                  = (case fst (createNode c (JStr t)
                       (JObj (project flow (clientX event - rectLeft flow,
                                            clientY event - rectTop flow))) s) of
                       Returns n \<Rightarrow> Returns ()
                     | Throws err \<Rightarrow> Throws err
                     | Inherited m \<Rightarrow> Inherited m))
          \<and> ((t = MESSAGE_NODE_IDENTIFIER c \<or> t = SELECT_NODE_IDENTIFIER c) \<and> t \<noteq> []
               \<longrightarrow> (\<exists>n s'. createNode c (JStr t)
                       (JObj (project flow (clientX event - rectLeft flow,
                                            clientY event - rectTop flow))) s
                       = (Returns n, s')
                     \<and> type n = t
                     \<and> onDrop c flow event (s, st) = (Returns (), s', addNode n st))))"
proof (intro conjI impI)
  show "items (dataTransfer (dragHandler c t e)) (DATA_TRANSFER_TYPE c) = Some t"
    by (simp add: dragHandler_def setData_def)
next
  assume "items (dataTransfer event) = items (dataTransfer (dragHandler c t e))"
  then show "getData (DATA_TRANSFER_TYPE c) (dataTransfer event) = t"
    using getData_dragHandler [of c t e] getData_items by metis
next
  assume same: "items (dataTransfer event) = items (dataTransfer (dragHandler c t e))"
    and ne: "t \<noteq> []"
  from same have g: "getData (DATA_TRANSFER_TYPE c) (dataTransfer event) = t"
    using getData_dragHandler [of c t e] getData_items by metis
  let ?p = "JObj (project flow (clientX event - rectLeft flow, clientY event - rectTop flow))"
  obtain r s' where step: "createNode c (JStr t) ?p s = (r, s')"
    by (cases "createNode c (JStr t) ?p s")
  with g ne show "fst (onDrop c flow event (s, st))
                  = (case fst (createNode c (JStr t) ?p s) of
                       Returns n \<Rightarrow> Returns ()
                     | Throws err \<Rightarrow> Throws err
                     | Inherited m \<Rightarrow> Inherited m)"
    by (cases r) (simp_all add: onDrop_def)
next
  assume same: "items (dataTransfer event) = items (dataTransfer (dragHandler c t e))"
    and sup: "(t = MESSAGE_NODE_IDENTIFIER c \<or> t = SELECT_NODE_IDENTIFIER c) \<and> t \<noteq> []"
  from same have g: "getData (DATA_TRANSFER_TYPE c) (dataTransfer event) = t"
    using getData_dragHandler [of c t e] getData_items by metis
  obtain r s' where step: "createNode c (JStr t)
        (JObj (project flow (clientX event - rectLeft flow, clientY event - rectTop flow))) s
        = (r, s')"
    by (cases "createNode c (JStr t)
        (JObj (project flow (clientX event - rectLeft flow, clientY event - rectTop flow))) s")
  from sup have "t = MESSAGE_NODE_IDENTIFIER c \<or> t = SELECT_NODE_IDENTIFIER c" and "t \<noteq> []"
    by simp_all
  from onDrop_supported [OF g this step, of st] step
  show "\<exists>n s'. createNode c (JStr t)
                       (JObj (project flow (clientX event - rectLeft flow,
                                            clientY event - rectTop flow))) s
                       = (Returns n, s')
                     \<and> type n = t
                     \<and> onDrop c flow event (s, st) = (Returns (), s', addNode n st)"
    by blast
qed

text \<open>
  The select block, dragged from a fresh drag event and dropped with the event that
  \<^verbatim>\<open>onDragOver\<close> has handled in between.
\<close>

theorem drag_drop_round_trip_witness:
  "items (dataTransfer (dragHandler sampleConstants ''select'' sampleDrag))
     (DATA_TRANSFER_TYPE sampleConstants) = Some ''select''
   \<and> items (dataTransfer (onDragOver (dragHandler sampleConstants ''select'' sampleDrag)))
       = items (dataTransfer (dragHandler sampleConstants ''select'' sampleDrag))
   \<and> getData (DATA_TRANSFER_TYPE sampleConstants)
       (dataTransfer (onDragOver (dragHandler sampleConstants ''select'' sampleDrag)))
       = ''select''
   \<and> (''select'' = MESSAGE_NODE_IDENTIFIER sampleConstants
        \<or> ''select'' = SELECT_NODE_IDENTIFIER sampleConstants) \<and> ''select'' \<noteq> []
   \<and> (\<exists>n s'. createNode sampleConstants (JStr ''select'')
           (JObj (project sampleFlow
              (clientX (onDragOver (dragHandler sampleConstants ''select'' sampleDrag))
                 - rectLeft sampleFlow,
               clientY (onDragOver (dragHandler sampleConstants ''select'' sampleDrag))
                 - rectTop sampleFlow))) initial
           = (Returns n, s')
         \<and> type n = ''select''
         \<and> onDrop sampleConstants sampleFlow
             (onDragOver (dragHandler sampleConstants ''select'' sampleDrag))
             (initial, sampleStore)
           = (Returns (), s', addNode n sampleStore))"
proof -
  let ?drop = "onDragOver (dragHandler sampleConstants ''select'' sampleDrag)"
  have same: "items (dataTransfer ?drop)
       = items (dataTransfer (dragHandler sampleConstants ''select'' sampleDrag))"
    by (simp add: onDragOver_def)
  have sup: "(''select'' = MESSAGE_NODE_IDENTIFIER sampleConstants
        \<or> ''select'' = SELECT_NODE_IDENTIFIER sampleConstants) \<and> ''select'' \<noteq> []"
    by simp
  from drag_drop_round_trip [of sampleConstants "''select''" sampleDrag ?drop sampleFlow
      initial sampleStore] same sup
  show ?thesis by blast
qed

section \<open>The selected node\<close>

text \<open>
  C10: \<^verbatim>\<open>onSelectionChange\<close> with a non-empty node list sets the selected node to
  the first node of the list, and with an empty list it leaves the store as it is;
  \<^verbatim>\<open>onNodesDelete\<close> sets the selected node to \<^verbatim>\<open>null\<close>, and no other handler
  does: \<^verbatim>\<open>onSelectionChange\<close> leaves it \<^verbatim>\<open>null\<close> only where it was
  \<^verbatim>\<open>null\<close> before, and \<^verbatim>\<open>onNodesChange\<close>, \<^verbatim>\<open>onEdgesChange\<close>,
  \<^verbatim>\<open>onConnect\<close> and \<^verbatim>\<open>onDrop\<close> do not change it (\<^verbatim>\<open>onDragOver\<close> does not
  touch the store).
\<close>

theorem selectedNode_maintenance:
  "(ns \<noteq> [] \<longrightarrow> selectedNode (onSelectionChange ns st) = Some (hd ns))
   \<and> onSelectionChange [] st = st
   \<and> selectedNode (onNodesDelete st) = None
   \<and> (selectedNode (onSelectionChange ns st) = None \<longrightarrow> selectedNode st = None)
   \<and> selectedNode (onNodesChange applyNodeChanges changes st) = selectedNode st
   \<and> selectedNode (onEdgesChange applyEdgeChanges changes' st) = selectedNode st
   \<and> selectedNode (onConnect addEdge params st) = selectedNode st
   \<and> selectedNode (snd (snd (onDrop c flow event (s, st)))) = selectedNode st"
  by (simp add: onSelectionChange_def onNodesDelete_def onNodesChange_def onEdgesChange_def
      onConnect_def setSelectedNode_def setNodes_def setEdges_def onDrop_selectedNode
      hd_conv_nth)

text \<open>
  A selection of two nodes on a store with a selected node; and an empty selection
  after a deletion, where the selected node is \<^verbatim>\<open>null\<close> after the event and was
  \<^verbatim>\<open>null\<close> before it.
\<close>

theorem selectedNode_maintenance_witness:
  "[messageNode1 (JObj (1::int, 2::int)), selectNode1 (JObj (0, 0))] \<noteq> []
   \<and> selectedNode (onSelectionChange
         [messageNode1 (JObj (1, 2)), selectNode1 (JObj (0, 0))] sampleStore)
       = Some (messageNode1 (JObj (1, 2)))
   \<and> onSelectionChange [] sampleStore = sampleStore
   \<and> selectedNode (onSelectionChange [] (onNodesDelete sampleStore)) = None
   \<and> selectedNode (onNodesDelete sampleStore) = None"
proof -
  have ne: "[messageNode1 (JObj (1::int, 2::int)), selectNode1 (JObj (0, 0))] \<noteq> []"
    by simp
  have none: "selectedNode (onSelectionChange [] (onNodesDelete sampleStore)) = None"
    by (simp add: onSelectionChange_def onNodesDelete_def setSelectedNode_def)
  from selectedNode_maintenance
      [of "[messageNode1 (JObj (1, 2)), selectNode1 (JObj (0, 0))]" sampleStore
          "\<lambda>changes ns. ns" "()" "\<lambda>changes es. es" "()" "\<lambda>params es. es" "()"
          sampleConstants sampleFlow sampleDrag initial]
    selectedNode_maintenance
      [of "[]" "onNodesDelete sampleStore"
          "\<lambda>changes ns. ns" "()" "\<lambda>changes es. es" "()" "\<lambda>params es. es" "()"
          sampleConstants sampleFlow sampleDrag initial]
    ne none
  show ?thesis by simp
qed

end
